theory Spec2Isabelle
  imports Main
begin


section \<open>JavaScript values\<close>

text \<open>
  The data provider is dynamically typed at its boundary (\<open>filter: any\<close>, \<open>meta: any\<close>, decoded
  JSON bodies), so the values it handles are modelled by one datatype. Strings are character
  lists. An object is the list of its own enumerable properties in property order.

  A number is written as an integer, as a numeric literal is: \<open>JNum n\<close> is the double nearest
  to \<open>n\<close>, which is \<open>n\<close> itself up to \<open>2^53\<close> and an infinity beyond the largest double.
  \<open>JNaN\<close> is the one number that is not of that form. Fractions are not modelled, and the
  sign of zero is not kept (string conversion does not show it).
\<close>

datatype jsval =
    JUndefined
  | JNull
  | JBool bool
  | JNum int
  | JNaN
  | JStr string
  | JArr "jsval list"
  | JObj "(string \<times> jsval) list"

type_synonym obj = "(string \<times> jsval) list"

datatype error =
    TypeError  \<comment> \<open>raised by the language itself: property read on null, call of a non-function\<close>
  | Rejected string  \<comment> \<open>a failure raised by the injected transport or by its body decoder\<close>
  | Thrown string obj  \<comment> \<open>an error object built by the code: its class name and own fields\<close>

text \<open>Truthiness, as tested by \<open>if (x)\<close> and \<open>!!x\<close>.\<close>

fun truthy :: "jsval \<Rightarrow> bool" where
  "truthy JUndefined = False"
| "truthy JNull = False"
| "truthy (JBool b) = b"
| "truthy (JNum n) = (n \<noteq> 0)"
| "truthy JNaN = False"
| "truthy (JStr s) = (s \<noteq> [])"
| "truthy (JArr _) = True"
| "truthy (JObj _) = True"

fun typeof :: "jsval \<Rightarrow> string" where
  "typeof JUndefined = ''undefined''"
| "typeof JNull = ''object''"
| "typeof (JBool _) = ''boolean''"
| "typeof (JNum _) = ''number''"
| "typeof JNaN = ''number''"
| "typeof (JStr _) = ''string''"
| "typeof (JArr _) = ''object''"
| "typeof (JObj _) = ''object''"

subsection \<open>Numbers\<close>

text \<open>
  Rounding an integer to the nearest double, ties to the even significand. A magnitude up to
  \<open>2^53\<close> is a double. Above, \<open>ulp a\<close> is the distance between the doubles around \<open>a\<close>, that
  is \<open>2^(b - 53)\<close> for a magnitude of \<open>b\<close> bits, and the significand \<open>a div ulp a\<close> is rounded.
  The constant \<open>infinity\<close> is \<open>2^1024\<close>, the least magnitude that is no finite double; it
  stands for the infinite value.
\<close>

function ulp :: "int \<Rightarrow> int" where
  "ulp a = (if a < 18014398509481984 then 2 else 2 * ulp (a div 2))"
  by pat_completeness auto
termination
  by (relation "measure nat") auto

declare ulp.simps [simp del]

definition infinity :: int where
  "infinity = 179769313486231590772930519078902473361797697894230657273430081157732675805500963132708477322407536021120113879871393357658789768814416622492847430639474124377767893424865485276302219601246094119453082952085005768838150682342462881473913110540827237163350510684586298239947245938479716304835356329624224137216"

definition round_magnitude :: "int \<Rightarrow> int" where
  "round_magnitude a =
     (if a \<le> 9007199254740992 then a
      else (let u = ulp a;
                q = a div u;
                r = a mod u;
                m = (if u < 2 * r \<or> (2 * r = u \<and> odd q) then q + 1 else q) * u
            in if infinity \<le> m then infinity else m))"

definition to_double :: "int \<Rightarrow> int" where
  "to_double n = (if n < 0 then - round_magnitude (- n) else round_magnitude n)"

text \<open>
  The operators \<open>-\<close> and \<open>*\<close> on numbers: the exact result rounded, with the rules for the
  infinities.
\<close>

definition subtract :: "int \<Rightarrow> int \<Rightarrow> jsval" where
  "subtract a b =
     (let x = to_double a; y = to_double b
      in if infinity \<le> \<bar>x\<bar> \<and> infinity \<le> \<bar>y\<bar>
         then (if (x < 0) = (y < 0) then JNaN else JNum x)
         else if infinity \<le> \<bar>x\<bar> then JNum x
         else if infinity \<le> \<bar>y\<bar> then JNum (- y)
         else JNum (to_double (x - y)))"

definition multiply :: "jsval \<Rightarrow> int \<Rightarrow> jsval" where
  "multiply l b =
     (case l of
        JNum a \<Rightarrow>
          (let x = to_double a; y = to_double b
           in if (infinity \<le> \<bar>x\<bar> \<and> y = 0) \<or> (x = 0 \<and> infinity \<le> \<bar>y\<bar>) then JNaN
              else if infinity \<le> \<bar>x\<bar> \<or> infinity \<le> \<bar>y\<bar>
              then JNum (if (x < 0) = (y < 0) then infinity else - infinity)
              else JNum (to_double (x * y)))
      | _ \<Rightarrow> JNaN)"

text \<open>Decimal digits of a natural number.\<close>

definition digit :: "int \<Rightarrow> char" where
  "digit d = ''0123456789'' ! nat d"

function decimal :: "int \<Rightarrow> string" where
  "decimal n = (if 10 \<le> n then decimal (n div 10) else []) @ [digit (n mod 10)]"
  by pat_completeness auto
termination
  by (relation "measure nat") auto

declare decimal.simps [simp del]

function digit_count :: "int \<Rightarrow> nat" where
  "digit_count n = (if n < 10 then 1 else 1 + digit_count (n div 10))"
  by pat_completeness auto
termination
  by (relation "measure nat") auto

declare digit_count.simps [simp del]

text \<open>
  String conversion of a number. For a positive finite double \<open>x\<close> it takes the least number
  \<open>k\<close> of digits and the \<open>k\<close>-digit integer \<open>s\<close> such that \<open>s * 10^(n - k)\<close> rounds to \<open>x\<close>,
  the nearest to \<open>x\<close> where several do and the even one of two equally near.
  \<open>candidate x n k\<close> is that \<open>s\<close> for given \<open>n\<close> and \<open>k\<close>, if there is one: it is one of the two
  multiples of \<open>10^(n - k)\<close> around \<open>x\<close>. Seventeen digits identify every double. The digits
  are followed by \<open>n - k\<close> zeros when \<open>n\<close> is at most 21, and written in exponent notation
  otherwise.
\<close>

definition candidate :: "int \<Rightarrow> nat \<Rightarrow> nat \<Rightarrow> int option" where
  "candidate x n k =
     (let p = 10 ^ (n - k);
          lo = x div p;
          hi = lo + 1;
          ok_lo = (10 ^ (k - 1) \<le> lo \<and> lo < 10 ^ k \<and> round_magnitude (lo * p) = x);
          ok_hi = (10 ^ (k - 1) \<le> hi \<and> hi < 10 ^ k \<and> round_magnitude (hi * p) = x)
      in if ok_lo \<and> ok_hi
         then (if x - lo * p < hi * p - x then Some lo
               else if hi * p - x < x - lo * p then Some hi
               else if even lo then Some lo else Some hi)
         else if ok_lo then Some lo
         else if ok_hi then Some hi
         else None)"

fun shortest :: "int \<Rightarrow> nat \<Rightarrow> nat \<Rightarrow> nat \<Rightarrow> int \<times> nat" where
  "shortest x n k 0 = (x, n)"
| "shortest x n k (Suc fuel) =
     (case candidate x n k of Some s \<Rightarrow> (s, k) | None \<Rightarrow> shortest x n (Suc k) fuel)"

definition print_magnitude :: "int \<Rightarrow> string" where
  "print_magnitude x =
     (let d = digit_count x;
          (s, k, n) = (if round_magnitude (10 ^ d) = x then (1, 1, Suc d)
                       else (let (s, k) = shortest x d 1 17 in (s, k, d)))
      in if n \<le> 21 then decimal s @ replicate (n - k) (CHR ''0'')
         else (case decimal s of
                 [] \<Rightarrow> []
               | c # cs \<Rightarrow> c # (if cs = [] then [] else ''.'' @ cs))
              @ ''e+'' @ decimal (int n - 1))"

definition number_to_string :: "int \<Rightarrow> string" where
  "number_to_string i =
     (let x = to_double i
      in if infinity \<le> \<bar>x\<bar> then (if x < 0 then ''-Infinity'' else ''Infinity'')
         else if x < 0 then ''-'' @ print_magnitude (- x)
         else print_magnitude x)"

subsection \<open>Strings\<close>

text \<open>
  String conversion of a value, which is what a template literal \<open>`${v}`\<close> and a computed
  property key \<open>{[v]: ...}\<close> apply. An array prints its elements separated by commas, with
  \<open>null\<close> and \<open>undefined\<close> elements printed as nothing; a plain object prints as
  \<open>[object Object]\<close>.
\<close>

fun to_string :: "jsval \<Rightarrow> string"
  and join_elems :: "jsval list \<Rightarrow> string" where
  "to_string JUndefined = ''undefined''"
| "to_string JNull = ''null''"
| "to_string (JBool b) = (if b then ''true'' else ''false'')"
| "to_string (JNum n) = number_to_string n"
| "to_string JNaN = ''NaN''"
| "to_string (JStr s) = s"
| "to_string (JArr xs) = join_elems xs"
| "to_string (JObj _) = ''[object Object]''"
| "join_elems [] = []"
| "join_elems [x] = (if x = JUndefined \<or> x = JNull then [] else to_string x)"
| "join_elems (x # y # ys) =
     (if x = JUndefined \<or> x = JNull then [] else to_string x) @ '','' @ join_elems (y # ys)"

text \<open>\<open>String.prototype.toLowerCase\<close> on the ASCII letters.\<close>

definition lower_char :: "char \<Rightarrow> char" where
  "lower_char c =
     (if (65::nat) \<le> of_char c \<and> of_char c \<le> (90::nat)
      then char_of (of_char c + (32::nat)) else c)"

definition toLowerCase :: "string \<Rightarrow> string" where
  "toLowerCase s = map lower_char s"

subsection \<open>Objects\<close>

text \<open>
  The own properties of an object are enumerated in property order: first the names that are
  array indices (the decimal notation, without leading zeros, of a number below \<open>2^32 - 1\<close>)
  in ascending numeric order, then the other names in the order of their creation.
\<close>

definition is_digit :: "char \<Rightarrow> bool" where
  "is_digit c \<longleftrightarrow> (48::int) \<le> of_char c \<and> of_char c \<le> (57::int)"

definition digits_value :: "string \<Rightarrow> int" where
  "digits_value s = foldl (\<lambda>n c. 10 * n + (of_char c - 48)) 0 s"

definition array_index :: "string \<Rightarrow> int option" where
  "array_index k =
     (if k \<noteq> [] \<and> list_all is_digit k \<and> (k = ''0'' \<or> hd k \<noteq> CHR ''0'') \<and>
         digits_value k < 4294967295
      then Some (digits_value k) else None)"

text \<open>A new property \<open>k\<close> is enumerated before an existing property \<open>k'\<close>.\<close>

definition precedes :: "string \<Rightarrow> string \<Rightarrow> bool" where
  "precedes k k' =
     (case array_index k of
        None \<Rightarrow> False
      | Some i \<Rightarrow> (case array_index k' of None \<Rightarrow> True | Some j \<Rightarrow> i < j))"

fun insert_prop :: "obj \<Rightarrow> string \<Rightarrow> jsval \<Rightarrow> obj" where
  "insert_prop [] k v = [(k, v)]"
| "insert_prop ((k', v') # ob) k v =
     (if precedes k k' then (k, v) # (k', v') # ob else (k', v') # insert_prop ob k v)"

definition replace_prop :: "obj \<Rightarrow> string \<Rightarrow> jsval \<Rightarrow> obj" where
  "replace_prop ob k v = map (\<lambda>kv. if fst kv = k then (k, v) else kv) ob"

text \<open>
  Defining the own property \<open>k\<close>, as an object literal, a spread and a rest pattern do: an
  existing property keeps its place and takes the value, a new one takes its place in
  property order.
\<close>

definition define_prop :: "obj \<Rightarrow> string \<Rightarrow> jsval \<Rightarrow> obj" where
  "define_prop ob k v =
     (if k \<in> set (map fst ob) then replace_prop ob k v else insert_prop ob k v)"

text \<open>
  The assignment \<open>ob[k] = v\<close> on a plain object. It defines the property, except for the
  name \<open>__proto__\<close>, which every plain object inherits as an accessor: unless the object has
  an own property of that name, assigning to it creates no own property.
\<close>

definition set_prop :: "obj \<Rightarrow> string \<Rightarrow> jsval \<Rightarrow> obj" where
  "set_prop ob k v =
     (if k = ''__proto__'' \<and> k \<notin> set (map fst ob) then ob else define_prop ob k v)"

text \<open>The spread \<open>{...target, ...source}\<close> defines the properties of the source in turn.\<close>

definition spread :: "obj \<Rightarrow> obj \<Rightarrow> obj" where
  "spread target source = foldl (\<lambda>ob kv. define_prop ob (fst kv) (snd kv)) target source"

text \<open>
  The object that a list of property definitions describes, as an object literal or a JSON
  text does: its properties in property order, a repeated name keeping its last value.
\<close>

definition props :: "obj \<Rightarrow> obj" where
  "props ob = spread [] ob"

text \<open>\<open>Object.assign(target, source)\<close> assigns the properties of the source in turn.\<close>

definition assign :: "obj \<Rightarrow> obj \<Rightarrow> obj" where
  "assign target source = foldl (\<lambda>ob kv. set_prop ob (fst kv) (snd kv)) target source"

text \<open>
  Reading a property \<open>v.k\<close>. Reading from \<open>undefined\<close> or \<open>null\<close> raises; a missing
  property reads as \<open>undefined\<close>. The names the code reads (\<open>field\<close>, \<open>order\<close>, \<open>errors\<close>,
  \<open>items\<close>, \<open>total\<close>, \<open>id\<close>) are not built-in properties of strings, arrays, numbers or
  booleans, so those read as \<open>undefined\<close> there.
\<close>

fun get_prop :: "jsval \<Rightarrow> string \<Rightarrow> error + jsval" where
  "get_prop JUndefined k = Inl TypeError"
| "get_prop JNull k = Inl TypeError"
| "get_prop (JObj ob) k = Inr (case map_of ob k of None \<Rightarrow> JUndefined | Some v \<Rightarrow> v)"
| "get_prop _ k = Inr JUndefined"

section \<open>The query builder\<close>

text \<open>
  The caller's filter object is written to by one operation, so filter objects live in a
  store and the parameters hold their addresses. \<open>meta.filter\<close> is an address as well: it
  may be the very same object. A cell of the store holds the property definitions of the
  object, and \<open>object_at\<close> is the object. Every other parameter is only read and is held by
  value.

  \<open>pagination\<close> and \<open>filter\<close> are the objects their types declare, and \<open>meta.filter\<close>, when
  there is one, is an object. \<open>sort\<close> is any value, since the builder itself tests it.
\<close>

type_synonym addr = nat

type_synonym store = "addr \<Rightarrow> obj"

definition object_at :: "store \<Rightarrow> addr \<Rightarrow> obj" where
  "object_at st a = props (st a)"

record pagination =
  page :: int
  perPage :: int

record meta =
  include_m :: jsval
  filter_m :: "addr option"

record list_params =
  pagination :: pagination
  sort_p :: jsval
  filter_p :: addr
  meta :: "meta option"

text \<open>\<open>getQuery\<close>: the \<open>include\<close> of the meta options, when there is a truthy one.\<close>

definition getQuery :: "meta option \<Rightarrow> obj" where
  "getQuery m =
     (case m of
        None \<Rightarrow> []
      | Some mt \<Rightarrow> if truthy (include_m mt) then set_prop [] ''include'' (include_m mt) else [])"

text \<open>
  \<open>Object.keys(v)\<close> raises on \<open>undefined\<close> and \<open>null\<close>; otherwise it is the array of the own
  property names (the indices, for an array or a string).
\<close>

fun object_keys :: "jsval \<Rightarrow> error + jsval" where
  "object_keys JUndefined = Inl TypeError"
| "object_keys JNull = Inl TypeError"
| "object_keys (JObj ob) = Inr (JArr (map (\<lambda>kv. JStr (fst kv)) ob))"
| "object_keys (JArr xs) = Inr (JArr (map (\<lambda>i. JStr (decimal (int i))) [0..<length xs]))"
| "object_keys (JStr s) = Inr (JArr (map (\<lambda>i. JStr (decimal (int i))) [0..<length s]))"
| "object_keys _ = Inr (JArr [])"

text \<open>
  The object literal \<open>{ [sort.field]: sort.order.toLowerCase() }\<close>: the key is the string
  conversion of \<open>sort.field\<close>; calling \<open>toLowerCase\<close> raises unless \<open>sort.order\<close> is a string.
\<close>

definition sort_object :: "jsval \<Rightarrow> error + obj" where
  "sort_object s =
     (case get_prop s ''field'' of
        Inl e \<Rightarrow> Inl e
      | Inr field \<Rightarrow>
         (case get_prop s ''order'' of
            Inl e \<Rightarrow> Inl e
          | Inr (JStr ord) \<Rightarrow> Inr (define_prop [] (to_string field) (JStr (toLowerCase ord)))
          | Inr _ \<Rightarrow> Inl TypeError))"

text \<open>
  \<open>Object.entries(filters).reduce((acc, [key, value]) => ({...acc, [key]: `equals:${value}`}), {})\<close>
\<close>

definition wrap_filters :: "obj \<Rightarrow> obj" where
  "wrap_filters filters =
     foldl (\<lambda>acc kv. define_prop (spread [] acc) (fst kv)
                       (JStr (''equals:'' @ to_string (snd kv)))) [] filters"

text \<open>
  \<open>getListQuery\<close>. The result is the query object, with its properties in property order;
  \<open>Inl\<close> is an exception. The branch \<open>if (Object.keys(sort))\<close> tests the array of keys itself.
  The rest pattern \<open>{ q, ...filters }\<close> copies the properties other than \<open>q\<close> into a new
  object.
\<close>

definition getListQuery :: "store \<Rightarrow> 'a list_params_scheme \<Rightarrow> error + obj" where
  "getListQuery st p =
     (let pg = page (pagination p);
          pp = perPage (pagination p);
          query = spread (define_prop (define_prop [] ''limit'' (JNum pp))
                            ''offset'' (multiply (subtract pg 1) pp))
                    (getQuery (meta p))
      in case object_keys (sort_p p) of
           Inl e \<Rightarrow> Inl e
         | Inr ks \<Rightarrow>
            (case (if truthy ks
                   then (case sort_object (sort_p p) of
                           Inl e \<Rightarrow> Inl e
                         | Inr srt \<Rightarrow> Inr (set_prop query ''sort'' (JObj srt)))
                   else Inr query) of
               Inl e \<Rightarrow> Inl e
             | Inr query \<Rightarrow>
                (let q = (case map_of (object_at st (filter_p p)) ''q'' of
                            None \<Rightarrow> JUndefined
                          | Some v \<Rightarrow> v);
                     filters = spread [] (filter (\<lambda>kv. fst kv \<noteq> ''q'')
                                           (object_at st (filter_p p)));
                     filters = (case meta p of
                                  None \<Rightarrow> filters
                                | Some mt \<Rightarrow>
                                   (case filter_m mt of
                                      None \<Rightarrow> filters
                                    | Some a \<Rightarrow> assign filters (object_at st a)));
                     query = (if truthy q then set_prop query ''q'' q else query)
                 in Inr (set_prop query ''filter'' (JObj (wrap_filters filters))))))"

section \<open>Errors\<close>

text \<open>
  An error object is recorded by its class and its own fields. The constructor of
  \<open>InvalidResponseError\<close> passes \<open>`Invalid response: ${statusCode}`\<close> to \<open>Error\<close>, which
  stores it as \<open>message\<close>, and assigns \<open>errors\<close>. \<open>DataProviderError\<close> of the error module
  assigns the marker \<open>_dataprovidererror\<close> besides.
\<close>

definition Error :: "string \<Rightarrow> error" where
  "Error message = Thrown ''Error'' [(''message'', JStr message)]"

definition InvalidResponseError :: "int \<Rightarrow> jsval \<Rightarrow> error" where
  "InvalidResponseError statusCode errors =
     Thrown ''InvalidResponseError''
       [(''message'', JStr (''Invalid response: '' @ to_string (JNum statusCode))),
        (''errors'', errors)]"

definition DataProviderError :: "int \<Rightarrow> jsval \<Rightarrow> error" where
  "DataProviderError statusCode errors =
     Thrown ''DataProviderError''
       [(''message'', JStr (''Invalid response: '' @ to_string (JNum statusCode))),
        (''errors'', errors),
        (''_dataprovidererror'', JBool True)]"

text \<open>\<open>k in v\<close> for a value whose \<open>typeof\<close> is object and that is not \<open>null\<close>.\<close>

fun has_property :: "string \<Rightarrow> jsval \<Rightarrow> bool" where
  "has_property k (JObj ob) = (k \<in> set (map fst ob))"
| "has_property k _ = False"

definition isDataProviderError :: "jsval \<Rightarrow> bool" where
  "isDataProviderError error \<longleftrightarrow>
     truthy error \<and> typeof error = ''object'' \<and> has_property ''_dataprovidererror'' error"

section \<open>Transport and response interpreter\<close>

text \<open>
  The transport is the injected \<open>fetch\<close>. A request is recorded by what the code hands over:
  the two arguments of \<open>new URL\<close>, the object whose encoding by \<open>stringifyQuery\<close> is assigned
  to \<open>url.search\<close> (none when the code assigns no search), and the options, whose \<open>body\<close> is
  the value given to \<open>JSON.stringify\<close>. Both encoders are functions of these values, so the
  transport sees nothing more. A response is its status and the outcome of \<open>json()\<close>.
\<close>

record fetch_options =
  method_o :: string
  body :: "jsval option"
  headers :: "(string \<times> string) list"

record request =
  url_base :: string
  url_path :: string
  url_search :: "obj option"
  options :: "fetch_options option"

record response =
  status :: int
  json :: "error + jsval"

record env =
  baseUrl :: string
  fetch :: "request \<Rightarrow> error + response"

text \<open>The state an operation acts on: the caller's objects and the requests sent so far.\<close>

record world =
  objects :: store
  sent :: "request list"

definition call_fetch :: "env \<Rightarrow> request \<Rightarrow> world \<Rightarrow> (error + response) \<times> world" where
  "call_fetch E req w = (fetch E req, w\<lparr>sent := sent w @ [req]\<rparr>)"

definition getJsonResponse :: "response \<Rightarrow> error + jsval" where
  "getJsonResponse res =
     (case json res of
        Inl e \<Rightarrow> Inl e
      | Inr data \<Rightarrow>
         if status res \<ge> 400
         then (case get_prop data ''errors'' of
                 Inl e \<Rightarrow> Inl e
               | Inr errors \<Rightarrow> Inl (InvalidResponseError (status res) errors))
         else Inr data)"

text \<open>The result envelope \<open>{ data: data.items, total: data.total }\<close> and \<open>{ data: data.items }\<close>.\<close>

definition items_total :: "jsval \<Rightarrow> error + jsval" where
  "items_total data =
     (case get_prop data ''items'' of
        Inl e \<Rightarrow> Inl e
      | Inr items \<Rightarrow>
         (case get_prop data ''total'' of
            Inl e \<Rightarrow> Inl e
          | Inr tot \<Rightarrow> Inr (JObj [(''data'', items), (''total'', tot)])))"

definition items_only :: "jsval \<Rightarrow> error + jsval" where
  "items_only data =
     (case get_prop data ''items'' of
        Inl e \<Rightarrow> Inl e
      | Inr items \<Rightarrow> Inr (JObj [(''data'', items)]))"

section \<open>The operations\<close>

text \<open>
  An operation takes the provider's environment, the state, the resource and its parameters,
  and returns its result, \<open>Inl\<close> for a rejected promise, with the state after it. The base
  URL is a valid absolute URL, so that \<open>new URL\<close> does not raise.
\<close>

record create_params =
  data_c :: jsval

record id_params =
  id_p :: jsval



record many_params =
  ids :: jsval

record update_many_params = many_params +
  data_m :: jsval

record reference_params = list_params +
  target :: string
  id_r :: jsval



text \<open>
  \<open>isIdObject\<close>: \<open>typeof item === 'object' && 'id' in item\<close>. The \<open>in\<close> operator raises on
  \<open>null\<close>, whose \<open>typeof\<close> is object too.
\<close>

definition isIdObject :: "jsval \<Rightarrow> error + bool" where
  "isIdObject item =
     (if typeof item = ''object''
      then (if item = JNull then Inl TypeError else Inr (has_property ''id'' item))
      else Inr False)"

text \<open>\<open>(params.ids ?? []).map((item) => isIdObject(item) ? item.id : item)\<close>\<close>

fun reduce_items :: "jsval list \<Rightarrow> error + jsval list" where
  "reduce_items [] = Inr []"
| "reduce_items (item # rest) =
     (case isIdObject item of
        Inl e \<Rightarrow> Inl e
      | Inr b \<Rightarrow>
         (case (if b then get_prop item ''id'' else Inr item) of
            Inl e \<Rightarrow> Inl e
          | Inr x \<Rightarrow> (case reduce_items rest of Inl e \<Rightarrow> Inl e | Inr xs \<Rightarrow> Inr (x # xs))))"

fun id_list :: "jsval \<Rightarrow> error + jsval list" where
  "id_list JUndefined = reduce_items []"
| "id_list JNull = reduce_items []"
| "id_list (JArr items) = reduce_items items"
| "id_list _ = Inl TypeError"

definition getMany :: "env \<Rightarrow> world \<Rightarrow> string \<Rightarrow> many_params \<Rightarrow> (error + jsval) \<times> world" where
  "getMany E w resource params =
     (case id_list (ids params) of
        Inl e \<Rightarrow> (Inl e, w)
      | Inr id' \<Rightarrow>
         (let url = \<lparr>url_base = baseUrl E, url_path = ''/'' @ resource,
                     url_search = Some [(''id'', JArr id')], options = None\<rparr>;
              (r, w') = call_fetch E url w
          in case r of
               Inl e \<Rightarrow> (Inl e, w')
             | Inr res \<Rightarrow>
                (case getJsonResponse res of
                   Inl e \<Rightarrow> (Inl e, w')
                 | Inr data \<Rightarrow> (items_only data, w'))))"

text \<open>
  \<open>getManyReference\<close> builds the list query first and assigns to the caller's filter object
  afterwards. The state after it holds the caller's \<open>params\<close> as well: the assignment to the
  filter object is the only one the operation makes, so they are the ones it was given.
\<close>

record reference_world = world +
  params_r :: reference_params

definition after_call :: "world \<Rightarrow> reference_params \<Rightarrow> reference_world" where
  "after_call w params = \<lparr>objects = objects w, sent = sent w, params_r = params\<rparr>"

definition getManyReference ::
  "env \<Rightarrow> world \<Rightarrow> string \<Rightarrow> reference_params \<Rightarrow> (error + jsval) \<times> reference_world" where
  "getManyReference E w resource params =
     (case getListQuery (objects w) params of
        Inl e \<Rightarrow> (Inl e, after_call w params)
      | Inr listQuery \<Rightarrow>
         (let w1 = (if truthy (JStr (target params))
                    then w\<lparr>objects := (objects w)
                           (filter_p params :=
                              set_prop (object_at (objects w) (filter_p params)) (target params)
                                (JStr (''equals:'' @ to_string (id_r params))))\<rparr>
                    else w);
              url = \<lparr>url_base = baseUrl E, url_path = ''/'' @ resource,
                     url_search = Some listQuery, options = None\<rparr>;
              (r, w') = call_fetch E url w1
          in case r of
               Inl e \<Rightarrow> (Inl e, after_call w' params)
             | Inr res \<Rightarrow>
                (case getJsonResponse res of
                   Inl e \<Rightarrow> (Inl e, after_call w' params)
                 | Inr data \<Rightarrow> (items_total data, after_call w' params))))"

definition json_headers :: "(string \<times> string) list" where
  "json_headers = [(''Content-Type'', ''application/json'')]"

definition create :: "env \<Rightarrow> world \<Rightarrow> string \<Rightarrow> create_params \<Rightarrow> (error + jsval) \<times> world" where
  "create E w resource params =
     (let url = \<lparr>url_base = baseUrl E, url_path = ''/'' @ resource, url_search = None,
                 options = Some \<lparr>method_o = ''POST'', body = Some (data_c params),
                                 headers = json_headers\<rparr>\<rparr>;
          (r, w') = call_fetch E url w
      in case r of
           Inl e \<Rightarrow> (Inl e, w')
         | Inr res \<Rightarrow>
            (case getJsonResponse res of
               Inl e \<Rightarrow> (Inl e, w')
             | Inr data \<Rightarrow> (Inr (JObj [(''data'', data)]), w')))"


definition updateMany ::
  "env \<Rightarrow> world \<Rightarrow> string \<Rightarrow> update_many_params \<Rightarrow> (error + jsval) \<times> world" where
  "updateMany E w resource params =
     (let url = \<lparr>url_base = baseUrl E, url_path = ''/'' @ resource,
                 url_search = Some [(''id'', ids params)],
                 options = Some \<lparr>method_o = ''PUT'', body = Some (data_m params),
                                 headers = json_headers\<rparr>\<rparr>;
          (r, w') = call_fetch E url w
      in case r of
           Inl e \<Rightarrow> (Inl e, w')
         | Inr res \<Rightarrow>
            (case getJsonResponse res of
               Inl e \<Rightarrow> (Inl e, w')
             | Inr data \<Rightarrow> (items_only data, w')))"

definition delete :: "env \<Rightarrow> world \<Rightarrow> string \<Rightarrow> id_params \<Rightarrow> (error + jsval) \<times> world" where
  "delete E w resource params =
     (let url = \<lparr>url_base = baseUrl E,
                 url_path = ''/'' @ resource @ ''/'' @ to_string (id_p params),
                 url_search = None,
                 options = Some \<lparr>method_o = ''DELETE'', body = None, headers = []\<rparr>\<rparr>;
          (r, w') = call_fetch E url w
      in case r of
           Inl e \<Rightarrow> (Inl e, w')
         | Inr res \<Rightarrow>
            if status res \<ge> 400
            then (Inl (Error (to_string (JNum (status res)))), w')
            else (Inr (JObj [(''data'', JObj [])]), w'))"

definition deleteMany :: "env \<Rightarrow> world \<Rightarrow> string \<Rightarrow> many_params \<Rightarrow> (error + jsval) \<times> world" where
  "deleteMany E w resource params =
     (let url = \<lparr>url_base = baseUrl E, url_path = ''/'' @ resource,
                 url_search = Some [(''id'', ids params)],
                 options = Some \<lparr>method_o = ''DELETE'', body = None, headers = []\<rparr>\<rparr>;
          (r, w') = call_fetch E url w
      in case r of
           Inl e \<Rightarrow> (Inl e, w')
         | Inr res \<Rightarrow>
            if status res \<ge> 400
            then (Inl (InvalidResponseError (status res) JUndefined), w')
            else (Inr (JObj [(''data'', ids params)]), w'))"

section \<open>Notions used in the statements\<close>

text \<open>The own properties of \<open>meta.filter\<close>; none when there is no \<open>meta\<close> or no \<open>meta.filter\<close>.\<close>

definition meta_filter :: "store \<Rightarrow> 'a list_params_scheme \<Rightarrow> obj" where
  "meta_filter st p =
     (case meta p of
        None \<Rightarrow> []
      | Some mt \<Rightarrow> (case filter_m mt of None \<Rightarrow> [] | Some a \<Rightarrow> object_at st a))"

text \<open>A filter entry with its value wrapped by the equals operator.\<close>

definition wrap :: "string \<times> jsval \<Rightarrow> string \<times> jsval" where
  "wrap kv = (fst kv, JStr (''equals:'' @ to_string (snd kv)))"

text \<open>
  A property list in property order: the names are distinct and no name comes after one it
  precedes.
\<close>

definition canonical :: "obj \<Rightarrow> bool" where
  "canonical ob \<longleftrightarrow>
     distinct (map fst ob) \<and> sorted_wrt (\<lambda>a b. \<not> precedes b a) (map fst ob)"

text \<open>
  The identifier list as the specification describes it: an element is a bare identifier (a
  number or a string) or an object exposing an \<open>id\<close> field, and the raw identifier of an
  object is the value of that field.
\<close>

fun is_identifier :: "jsval \<Rightarrow> bool" where
  "is_identifier (JNum _) = True"
| "is_identifier (JStr _) = True"
| "is_identifier _ = False"

fun exposes_id :: "jsval \<Rightarrow> bool" where
  "exposes_id (JObj ob) = (''id'' \<in> set (map fst ob))"
| "exposes_id _ = False"

fun raw_identifier :: "jsval \<Rightarrow> jsval" where
  "raw_identifier (JObj ob) = (case map_of ob ''id'' of None \<Rightarrow> JObj ob | Some v \<Rightarrow> v)"
| "raw_identifier item = item"

subsection \<open>Sample calls\<close>

text \<open>
  The calls of the test suite: a transport that answers every request alike, as the mocked
  server of the tests does, a sort \<open>{field: 'somefield', order: 'asc'}\<close>, and a store whose
  object 0 is the filter \<open>{id: 1}\<close>.
\<close>

definition respond :: "int \<Rightarrow> error + jsval \<Rightarrow> env" where
  "respond s b =
     \<lparr>baseUrl = ''http://api.com'', fetch = (\<lambda>req. Inr \<lparr>status = s, json = b\<rparr>)\<rparr>"

definition fresh_world :: "store \<Rightarrow> world" where
  "fresh_world st = \<lparr>objects = st, sent = []\<rparr>"

definition sample_sort :: jsval where
  "sample_sort = JObj [(''field'', JStr ''somefield''), (''order'', JStr ''asc'')]"

definition sample_store :: store where
  "sample_store = (\<lambda>a. if a = 0 then [(''id'', JNum 1)] else [])"

definition sample_list :: list_params where
  "sample_list =
     \<lparr>pagination = \<lparr>page = 1, perPage = 25\<rparr>, sort_p = sample_sort, filter_p = 0,
      meta = None\<rparr>"

definition sample_reference :: reference_params where
  "sample_reference =
     \<lparr>pagination = \<lparr>page = 1, perPage = 25\<rparr>, sort_p = sample_sort, filter_p = 0,
      meta = None, target = ''sometarget'', id_r = JNum 1\<rparr>"

text \<open>The body the mocked server of the tests answers with, and a validation-error body.\<close>

definition items_body :: jsval where
  "items_body =
     JObj [(''items'', JArr [JObj [(''title'', JStr ''Item one'')]]), (''total'', JNum 1)]"

definition validation_errors :: jsval where
  "validation_errors =
     JArr [JObj [(''constraint'', JStr ''isNotEmpty''),
                 (''message'', JStr ''foo should not be empty''),
                 (''property'', JStr ''foo'')]]"

text \<open>
  A list call with \<open>meta.filter\<close>. In \<open>falsy_store\<close> the filter is
  \<open>{a: '', b: 0, q: 's'}\<close> and \<open>meta.filter\<close> is \<open>{c: false}\<close>; in \<open>override_store\<close> the
  filter is \<open>{a: 1, q: 's'}\<close> and \<open>meta.filter\<close> is \<open>{a: 2, q: 'x'}\<close>. In \<open>index_store\<close> the
  filter is written \<open>{b: 1, '1': 2}\<close>, the property \<open>b\<close> first.
\<close>

definition meta_list :: list_params where
  "meta_list =
     \<lparr>pagination = \<lparr>page = 1, perPage = 25\<rparr>, sort_p = sample_sort, filter_p = 0,
      meta = Some \<lparr>include_m = JUndefined, filter_m = Some 1\<rparr>\<rparr>"

definition falsy_store :: store where
  "falsy_store =
     (\<lambda>a. if a = 0 then [(''a'', JStr []), (''b'', JNum 0), (''q'', JStr ''s'')]
          else if a = 1 then [(''c'', JBool False)]
          else [])"

definition index_store :: store where
  "index_store = (\<lambda>a. if a = 0 then [(''b'', JNum 1), (''1'', JNum 2)] else [])"

definition override_store :: store where
  "override_store =
     (\<lambda>a. if a = 0 then [(''a'', JNum 1), (''q'', JStr ''s'')]
          else if a = 1 then [(''a'', JNum 2), (''q'', JStr ''x'')]
          else [])"

section \<open>Properties of objects\<close>

lemma precedes_trans: "precedes a b \<Longrightarrow> precedes b c \<Longrightarrow> precedes a c"
  by (auto simp: precedes_def split: option.splits)

lemma precedes_asym: "precedes a b \<Longrightarrow> \<not> precedes b a"
  by (auto simp: precedes_def split: option.splits)

lemma precedes_non_index: "array_index k = None \<Longrightarrow> \<not> precedes k k'"
  by (simp add: precedes_def)

lemma insert_prop_split: "\<exists>xs ys. ob = xs @ ys \<and> insert_prop ob k v = xs @ (k, v) # ys"
proof (induction ob)
  case Nil
  then show ?case by simp
next
  case (Cons a ob)
  then obtain xs ys where s: "ob = xs @ ys" "insert_prop ob k v = xs @ (k, v) # ys"
    by blast
  obtain k' v' where a: "a = (k', v')" by (cases a)
  show ?case
  proof (cases "precedes k k'")
    case True
    then have "a # ob = [] @ (a # ob) \<and> insert_prop (a # ob) k v = [] @ (k, v) # (a # ob)"
      by (simp add: a)
    then show ?thesis by blast
  next
    case False
    then have "insert_prop (a # ob) k v = (a # xs) @ (k, v) # ys"
      by (simp add: a s(2))
    moreover have "a # ob = (a # xs) @ ys" by (simp add: s(1))
    ultimately show ?thesis by blast
  qed
qed

lemma names_insert_prop: "set (map fst (insert_prop ob k v)) = insert k (set (map fst ob))"
proof -
  from insert_prop_split [of ob k v]
  obtain xs ys where "ob = xs @ ys" "insert_prop ob k v = xs @ (k, v) # ys" by blast
  then show ?thesis by auto
qed

lemma others_insert_prop:
  "filter (\<lambda>x. x \<noteq> k) (map fst (insert_prop ob k v)) = filter (\<lambda>x. x \<noteq> k) (map fst ob)"
proof -
  from insert_prop_split [of ob k v]
  obtain xs ys where "ob = xs @ ys" "insert_prop ob k v = xs @ (k, v) # ys" by blast
  then show ?thesis by simp
qed

lemma map_of_insert_prop:
  assumes "k \<notin> set (map fst ob)"
  shows "map_of (insert_prop ob k v) k' = (if k' = k then Some v else map_of ob k')"
  using assms by (induction ob) (auto simp: rev_image_eqI)

lemma names_replace_prop: "map fst (replace_prop ob k v) = map fst ob"
  unfolding replace_prop_def by (induction ob) auto

lemma map_of_replace_prop:
  "map_of (replace_prop ob k v) k'
     = (if k' = k \<and> k \<in> set (map fst ob) then Some v else map_of ob k')"
  unfolding replace_prop_def by (induction ob) (auto simp: rev_image_eqI)

lemma names_define_prop: "set (map fst (define_prop ob k v)) = insert k (set (map fst ob))"
proof (cases "k \<in> set (map fst ob)")
  case True
  then show ?thesis by (simp only: define_prop_def if_True names_replace_prop) blast
next
  case False
  then show ?thesis by (simp only: define_prop_def if_False names_insert_prop)
qed

lemma others_define_prop:
  "filter (\<lambda>x. x \<noteq> k) (map fst (define_prop ob k v)) = filter (\<lambda>x. x \<noteq> k) (map fst ob)"
  by (simp only: define_prop_def names_replace_prop others_insert_prop if_distrib if_cancel
        split: if_splits)

lemma map_of_define_prop:
  "map_of (define_prop ob k v) k' = (if k' = k then Some v else map_of ob k')"
  by (simp add: define_prop_def map_of_replace_prop map_of_insert_prop)

lemma insert_prop_last:
  "\<forall>x\<in>set (map fst ob). \<not> precedes k x \<Longrightarrow> insert_prop ob k v = ob @ [(k, v)]"
  by (induction ob) auto

lemma canonical_Cons:
  "canonical ((k, v) # ob) \<longleftrightarrow>
     k \<notin> set (map fst ob) \<and> (\<forall>y\<in>set (map fst ob). \<not> precedes y k) \<and> canonical ob"
  unfolding canonical_def by (simp only: list.map fst_conv distinct.simps sorted_wrt.simps) blast

lemma canonical_insert_prop:
  "canonical ob \<Longrightarrow> k \<notin> set (map fst ob) \<Longrightarrow> canonical (insert_prop ob k v)"
proof (induction ob)
  case Nil
  then show ?case by (simp add: canonical_def)
next
  case (Cons a ob)
  obtain k' v' where a: "a = (k', v')" by (cases a)
  from Cons.prems(1) have tail: "canonical ob"
    and later: "\<forall>y\<in>set (map fst ob). \<not> precedes y k'" and fresh: "k' \<notin> set (map fst ob)"
    unfolding a canonical_Cons by blast+
  from Cons.prems(2) have new: "k \<notin> set (map fst ob)" and ne: "k \<noteq> k'"
    by (auto simp: a)
  show ?case
  proof (cases "precedes k k'")
    case True
    have "\<not> precedes y k" if "y \<in> set (map fst ((k', v') # ob))" for y
    proof (cases "y = k'")
      case True
      with \<open>precedes k k'\<close> show ?thesis by (simp add: precedes_asym)
    next
      case False
      with that have "y \<in> set (map fst ob)" by auto
      with later have "\<not> precedes y k'" by blast
      with \<open>precedes k k'\<close> show ?thesis using precedes_trans by blast
    qed
    moreover from Cons.prems(2) have "k \<notin> set (map fst ((k', v') # ob))" by (simp add: a)
    moreover from Cons.prems(1) have "canonical ((k', v') # ob)" by (simp add: a)
    ultimately have "canonical ((k, v) # (k', v') # ob)"
      by (subst canonical_Cons) blast
    with True show ?thesis by (simp add: a)
  next
    case False
    from Cons.IH [OF tail new] have c: "canonical (insert_prop ob k v)" .
    have "k' \<notin> set (map fst (insert_prop ob k v))"
      using fresh ne by (simp only: names_insert_prop) blast
    moreover have "\<forall>y\<in>set (map fst (insert_prop ob k v)). \<not> precedes y k'"
      using later False by (simp only: names_insert_prop) blast
    ultimately have "canonical ((k', v') # insert_prop ob k v)"
      using c by (subst canonical_Cons) blast
    with False show ?thesis by (simp add: a)
  qed
qed

lemma canonical_same_names: "map fst ob' = map fst ob \<Longrightarrow> canonical ob \<Longrightarrow> canonical ob'"
  by (simp add: canonical_def)

lemma canonical_define_prop: "canonical ob \<Longrightarrow> canonical (define_prop ob k v)"
  by (auto simp: define_prop_def canonical_insert_prop
        intro: canonical_same_names [OF names_replace_prop])

lemma canonical_set_prop: "canonical ob \<Longrightarrow> canonical (set_prop ob k v)"
  by (simp add: set_prop_def canonical_define_prop)

lemma canonical_spread: "canonical tgt \<Longrightarrow> canonical (spread tgt src)"
  unfolding spread_def
  by (induction src arbitrary: tgt) (simp_all add: canonical_define_prop)

lemma canonical_assign: "canonical tgt \<Longrightarrow> canonical (assign tgt src)"
  unfolding assign_def
  by (induction src arbitrary: tgt) (simp_all add: canonical_set_prop)

lemma canonical_Nil: "canonical []"
  by (simp add: canonical_def)

lemma canonical_props: "canonical (props ob)"
  unfolding props_def by (rule canonical_spread [OF canonical_Nil])

lemma props_canonical: "canonical ob \<Longrightarrow> props ob = ob"
proof (induction ob rule: rev_induct)
  case Nil
  then show ?case by (simp add: props_def spread_def)
next
  case (snoc a ob)
  obtain k v where a: "a = (k, v)" by (cases a)
  from snoc.prems have c: "canonical ob" and new: "k \<notin> set (map fst ob)"
    and last: "\<forall>x\<in>set (map fst ob). \<not> precedes k x"
    by (auto simp: canonical_def a sorted_wrt_append)
  have "props (ob @ [a]) = define_prop (props ob) k v"
    by (simp add: props_def spread_def a)
  also have "\<dots> = define_prop ob k v" by (simp add: snoc.IH [OF c])
  also have "\<dots> = ob @ [(k, v)]"
    using new by (simp add: define_prop_def insert_prop_last [OF last])
  finally show ?case by (simp add: a)
qed

lemma canonical_filter: "canonical ob \<Longrightarrow> canonical (filter (\<lambda>kv. P (fst kv)) ob)"
proof -
  have "map fst (filter (\<lambda>kv. P (fst kv)) ob) = filter P (map fst ob)"
    by (simp add: filter_map comp_def)
  then show "canonical ob \<Longrightarrow> canonical (filter (\<lambda>kv. P (fst kv)) ob)"
    by (simp add: canonical_def sorted_wrt_filter)
qed

lemma assign_Nil: "assign tgt [] = tgt"
  by (simp add: assign_def)

lemma assign_Cons: "assign tgt ((k, v) # src) = assign (set_prop tgt k v) src"
  by (simp add: assign_def)


lemma map_of_set_prop_other: "k' \<noteq> k \<Longrightarrow> map_of (set_prop ob k v) k' = map_of ob k'"
  by (simp add: set_prop_def map_of_define_prop)

lemma names_set_prop:
  "set (map fst ob) \<subseteq> set (map fst (set_prop ob k v)) \<and>
   set (map fst (set_prop ob k v)) \<subseteq> insert k (set (map fst ob))"
  by (simp only: set_prop_def names_define_prop split: if_splits) blast

text \<open>A name the source does not have keeps the target's value.\<close>

lemma map_of_assign_other:
  "k \<notin> set (map fst src) \<Longrightarrow> map_of (assign tgt src) k = map_of tgt k"
proof (induction src arbitrary: tgt)
  case Nil
  then show ?case by (simp add: assign_Nil)
next
  case (Cons a src)
  obtain k' v' where a: "a = (k', v')" by (cases a)
  from Cons.prems have "k \<noteq> k'" and "k \<notin> set (map fst src)" by (auto simp: a)
  then show ?case by (simp add: a assign_Cons Cons.IH map_of_set_prop_other)
qed

lemma names_assign:
  "set (map fst (assign tgt src)) \<subseteq> set (map fst tgt) \<union> set (map fst src)"
proof (induction src arbitrary: tgt)
  case Nil
  then show ?case by (simp add: assign_Nil)
next
  case (Cons a src)
  obtain k v where a: "a = (k, v)" by (cases a)
  from Cons.IH [of "set_prop tgt k v"] names_set_prop [of tgt k v]
  have "set (map fst (assign (set_prop tgt k v) src))
          \<subseteq> insert k (set (map fst tgt)) \<union> set (map fst src)"
    by blast
  then show ?case by (simp add: a assign_Cons)
qed

text \<open>Assigning keeps the order of the properties the target has.\<close>

lemma order_set_prop:
  assumes "S \<subseteq> set (map fst ob)"
  shows "filter (\<lambda>x. x \<in> S) (map fst (set_prop ob k v)) = filter (\<lambda>x. x \<in> S) (map fst ob)"
proof (cases "k \<in> set (map fst ob)")
  case True
  then show ?thesis
    by (simp only: set_prop_def define_prop_def names_replace_prop if_True simp_thms if_False)
next
  case False
  note new_name = this
  show ?thesis
  proof (cases "k = ''__proto__''")
    case True
    with new_name show ?thesis by (simp only: set_prop_def simp_thms if_True not_False_eq_True)
  next
    case False
    from new_name have out: "k \<notin> S" using assms by blast
    have drop: "filter (\<lambda>x. x \<in> S) xs = filter (\<lambda>x. x \<in> S) (filter (\<lambda>x. x \<noteq> k) xs)"
      for xs
      using out by (induction xs) auto
    from False new_name have "set_prop ob k v = insert_prop ob k v"
      by (simp add: set_prop_def define_prop_def)
    then show ?thesis
      using drop [of "map fst (insert_prop ob k v)"] drop [of "map fst ob"]
      by (simp only: others_insert_prop)
  qed
qed

lemma order_assign:
  "S \<subseteq> set (map fst tgt) \<Longrightarrow>
   filter (\<lambda>x. x \<in> S) (map fst (assign tgt src)) = filter (\<lambda>x. x \<in> S) (map fst tgt)"
proof (induction src arbitrary: tgt)
  case Nil
  then show ?case by (simp add: assign_Nil)
next
  case (Cons a src)
  obtain k v where a: "a = (k, v)" by (cases a)
  from Cons.prems names_set_prop [of tgt k v]
  have sub: "S \<subseteq> set (map fst (set_prop tgt k v))" by blast
  from Cons.IH [OF sub] order_set_prop [OF Cons.prems, of k v]
  show ?case by (simp add: a assign_Cons)
qed

text \<open>On a property list in property order the reduce of \<open>getListQuery\<close> wraps entry by entry.\<close>

lemma wrap_steps:
  "canonical acc \<Longrightarrow>
   foldl (\<lambda>acc kv. define_prop (spread [] acc) (fst kv)
                     (JStr (''equals:'' @ to_string (snd kv)))) acc xs
     = foldl (\<lambda>acc kv. define_prop acc (fst kv) (snd kv)) acc (map wrap xs)"
proof (induction xs arbitrary: acc)
  case Nil
  then show ?case by simp
next
  case (Cons a xs)
  from Cons.prems have same: "spread [] acc = acc"
    using props_canonical by (simp add: props_def)
  from Cons.prems
  have "canonical (define_prop acc (fst a) (JStr (''equals:'' @ to_string (snd a))))"
    by (rule canonical_define_prop)
  from Cons.IH [OF this] show ?case by (simp add: same wrap_def)
qed

lemma wrap_filters_canonical:
  assumes "canonical xs"
  shows "wrap_filters xs = map wrap xs"
proof -
  have names: "map fst (map wrap xs) = map fst xs"
    by (simp add: wrap_def comp_def)
  have "wrap_filters xs = foldl (\<lambda>acc kv. define_prop acc (fst kv) (snd kv)) [] (map wrap xs)"
    unfolding wrap_filters_def by (rule wrap_steps [OF canonical_Nil])
  also have "\<dots> = props (map wrap xs)"
    by (simp add: props_def spread_def)
  also have "\<dots> = map wrap xs"
    by (rule props_canonical [OF canonical_same_names [OF names assms]])
  finally show ?thesis .
qed

lemma canonical_object_at: "canonical (object_at st a)"
  by (simp add: object_at_def canonical_props)



text \<open>
  Where the names are distinct and none is an array index, property order is the order of
  the definitions.
\<close>

lemma props_plain_names:
  assumes "distinct (map fst ob)" and "\<forall>k\<in>set (map fst ob). array_index k = None"
  shows "props ob = ob"
proof -
  have "sorted_wrt (\<lambda>a b. \<not> precedes b a) ks" if "\<forall>k\<in>set ks. array_index k = None" for ks
    using that by (induction ks) (auto simp: precedes_non_index)
  with assms have "canonical ob" by (simp add: canonical_def)
  then show ?thesis by (rule props_canonical)
qed

text \<open>A name that is no array index is added last.\<close>

lemma define_prop_new:
  "array_index k = None \<Longrightarrow> k \<notin> set (map fst ob) \<Longrightarrow> define_prop ob k v = ob @ [(k, v)]"
  by (simp add: define_prop_def insert_prop_last precedes_non_index)

lemma set_prop_new:
  "array_index k = None \<Longrightarrow> k \<noteq> ''__proto__'' \<Longrightarrow> k \<notin> set (map fst ob) \<Longrightarrow>
   set_prop ob k v = ob @ [(k, v)]"
  by (simp add: set_prop_def define_prop_new)

section \<open>Properties of numbers\<close>

text \<open>Up to \<open>2^53\<close> the integers are doubles, and arithmetic that stays there is exact.\<close>

lemma to_double_exact: "\<bar>n\<bar> \<le> 9007199254740992 \<Longrightarrow> to_double n = n"
  by (simp add: to_double_def round_magnitude_def abs_le_iff)

lemma finite_exact: "\<bar>n\<bar> \<le> 9007199254740992 \<Longrightarrow> \<not> infinity \<le> \<bar>n\<bar>"
  by (simp add: infinity_def)

lemma subtract_exact:
  "\<bar>a\<bar> \<le> 9007199254740992 \<Longrightarrow> \<bar>b\<bar> \<le> 9007199254740992 \<Longrightarrow>
   \<bar>a - b\<bar> \<le> 9007199254740992 \<Longrightarrow> subtract a b = JNum (a - b)"
  by (simp add: subtract_def to_double_exact finite_exact)

lemma multiply_exact:
  "\<bar>a\<bar> \<le> 9007199254740992 \<Longrightarrow> \<bar>b\<bar> \<le> 9007199254740992 \<Longrightarrow>
   \<bar>a * b\<bar> \<le> 9007199254740992 \<Longrightarrow> multiply (JNum a) b = JNum (a * b)"
  by (simp add: multiply_def to_double_exact finite_exact)

lemma number_strings:
  "number_to_string 0 = ''0''" "number_to_string 1 = ''1''"
  "number_to_string 400 = ''400''" "number_to_string 404 = ''404''"
  by code_simp+

section \<open>Properties of the query builder\<close>

lemma fixed_names:
  "array_index ''limit'' = None" "array_index ''offset'' = None"
  "array_index ''include'' = None" "array_index ''sort'' = None"
  "array_index ''q'' = None" "array_index ''filter'' = None"
  by code_simp+

lemma object_keys_truthy: "object_keys v = Inr ks \<Longrightarrow> truthy ks"
  by (cases v) auto

lemma getQuery_cases:
  "getQuery m = [] \<or> (\<exists>v. getQuery m = [(''include'', v)])"
  by (auto simp: getQuery_def set_prop_def define_prop_def split: option.splits)

lemma spread_Nil: "spread tgt [] = tgt"
  by (simp add: spread_def)

lemma spread_Cons: "spread tgt ((k, v) # src) = spread (define_prop tgt k v) src"
  by (simp add: spread_def)

text \<open>The filters after the rest pattern and the merge of \<open>meta.filter\<close>.\<close>

lemma merged_filters:
  "(case meta p of
      None \<Rightarrow> spread [] (filter (\<lambda>kv. fst kv \<noteq> ''q'') (object_at st (filter_p p)))
    | Some mt \<Rightarrow>
       (case filter_m mt of
          None \<Rightarrow> spread [] (filter (\<lambda>kv. fst kv \<noteq> ''q'') (object_at st (filter_p p)))
        | Some a \<Rightarrow>
           assign (spread [] (filter (\<lambda>kv. fst kv \<noteq> ''q'') (object_at st (filter_p p))))
             (object_at st a)))
   = assign (filter (\<lambda>kv. fst kv \<noteq> ''q'') (object_at st (filter_p p))) (meta_filter st p)"
proof -
  have "canonical (filter (\<lambda>kv. fst kv \<noteq> ''q'') (object_at st (filter_p p)))"
    by (rule canonical_filter [OF canonical_object_at])
  then have "spread [] (filter (\<lambda>kv. fst kv \<noteq> ''q'') (object_at st (filter_p p)))
             = filter (\<lambda>kv. fst kv \<noteq> ''q'') (object_at st (filter_p p))"
    using props_canonical by (simp add: props_def)
  then show ?thesis
    by (simp add: meta_filter_def assign_Nil split: option.splits)
qed

text \<open>Every query that \<open>getListQuery\<close> returns has this form.\<close>

lemma getListQuery_shape:
  assumes "getListQuery st p = Inr query"
  shows "\<exists>srt. sort_object (sort_p p) = Inr srt \<and>
           query = (''limit'', JNum (perPage (pagination p)))
                 # (''offset'', multiply (subtract (page (pagination p)) 1)
                                  (perPage (pagination p)))
                 # getQuery (meta p)
                 @ (''sort'', JObj srt)
                 # (case map_of (object_at st (filter_p p)) ''q'' of
                      None \<Rightarrow> []
                    | Some qv \<Rightarrow> if truthy qv then [(''q'', qv)] else [])
                 @ [(''filter'',
                      JObj (map wrap
                              (assign (filter (\<lambda>kv. fst kv \<noteq> ''q'')
                                         (object_at st (filter_p p)))
                                 (meta_filter st p))))]"
proof -
  from assms obtain ks where ks: "object_keys (sort_p p) = Inr ks"
    by (auto simp: getListQuery_def Let_def split: sum.splits)
  then have t: "truthy ks" by (rule object_keys_truthy)
  from assms ks t obtain srt where srt: "sort_object (sort_p p) = Inr srt"
    by (auto simp: getListQuery_def Let_def split: sum.splits)
  have "canonical (assign (filter (\<lambda>kv. fst kv \<noteq> ''q'') (object_at st (filter_p p)))
                     (meta_filter st p))"
    by (rule canonical_assign [OF canonical_filter [OF canonical_object_at]])
  note w = wrap_filters_canonical [OF this]
  have base: "define_prop (define_prop [] ''limit'' a) ''offset'' b
                = [(''limit'', a), (''offset'', b)]" for a b
    by (simp add: define_prop_new fixed_names)
  from getQuery_cases [of "meta p"] show ?thesis
  proof
    assume g: "getQuery (meta p) = []"
    show ?thesis
      using assms ks t srt
      by (auto simp: getListQuery_def Let_def merged_filters w g base spread_Nil
            set_prop_new fixed_names split: option.splits)
  next
    assume "\<exists>v. getQuery (meta p) = [(''include'', v)]"
    then obtain v where g: "getQuery (meta p) = [(''include'', v)]" ..
    show ?thesis
      using assms ks t srt
      by (auto simp: getListQuery_def Let_def merged_filters w g base spread_Nil spread_Cons
            define_prop_new set_prop_new fixed_names split: option.splits)
  qed
qed

text \<open>A sort whose order is a string always builds.\<close>

lemma getListQuery_builds:
  assumes "sort_p p = JObj so" and "map_of so ''order'' = Some (JStr ord)"
  shows "\<exists>query. getListQuery st p = Inr query"
  using assms by (simp add: getListQuery_def Let_def sort_object_def)

text \<open>A sort with a field and a string order builds, and its order is lower-cased.\<close>

lemma getListQuery_sort_given:
  assumes "sort_p p = JObj [(''field'', JStr f), (''order'', JStr ord)]"
  shows "\<exists>query. getListQuery st p = Inr query \<and>
           get_prop (JObj query) ''sort'' = Inr (JObj [(f, JStr (toLowerCase ord))])"
proof -
  have so: "sort_object (sort_p p) = Inr [(f, JStr (toLowerCase ord))]"
    by (simp add: assms sort_object_def define_prop_def)
  from getListQuery_builds [of p _ ord st] assms
  obtain query where q: "getListQuery st p = Inr query" by auto
  from getListQuery_shape [OF q] so getQuery_cases [of "meta p"] have
    "get_prop (JObj query) ''sort'' = Inr (JObj [(f, JStr (toLowerCase ord))])"
    by auto
  with q show ?thesis by blast
qed

section \<open>Pagination\<close>

text \<open>
  Claim C6, as amended. For all pagination inputs \<open>(page, perPage)\<close> with \<open>page \<ge> 1\<close> and
  \<open>perPage \<ge> 1\<close> where \<open>page\<close>, \<open>perPage\<close> and \<open>(page - 1) * perPage\<close> are at most \<open>2^53\<close>,
  every list query that is built has \<open>offset = (page - 1) * perPage\<close> and \<open>limit = perPage\<close>;
  and a query is built whenever the sort is an object whose order is a string.
\<close>

theorem getListQuery_pagination:
  assumes "1 \<le> page (pagination p)" and "page (pagination p) \<le> 9007199254740992"
    and "1 \<le> perPage (pagination p)" and "perPage (pagination p) \<le> 9007199254740992"
    and "(page (pagination p) - 1) * perPage (pagination p) \<le> 9007199254740992"
  shows "(\<forall>query. getListQuery st p = Inr query \<longrightarrow>
            get_prop (JObj query) ''offset''
              = Inr (JNum ((page (pagination p) - 1) * perPage (pagination p))) \<and>
            get_prop (JObj query) ''limit'' = Inr (JNum (perPage (pagination p)))) \<and>
         (\<forall>so ord. sort_p p = JObj so \<and> map_of so ''order'' = Some (JStr ord) \<longrightarrow>
            (\<exists>query. getListQuery st p = Inr query))"
proof -
  let ?pg = "page (pagination p)" and ?pp = "perPage (pagination p)"
  from assms(1,2) have "subtract ?pg 1 = JNum (?pg - 1)"
    by (intro subtract_exact) simp_all
  moreover from assms(1,2,3,4,5) have "multiply (JNum (?pg - 1)) ?pp = JNum ((?pg - 1) * ?pp)"
    by (intro multiply_exact) simp_all
  ultimately have off: "multiply (subtract ?pg 1) ?pp = JNum ((?pg - 1) * ?pp)"
    by simp
  have "get_prop (JObj query) ''offset'' = Inr (JNum ((?pg - 1) * ?pp)) \<and>
        get_prop (JObj query) ''limit'' = Inr (JNum ?pp)"
    if "getListQuery st p = Inr query" for query
    using getListQuery_shape [OF that] off by auto
  moreover have "\<exists>query. getListQuery st p = Inr query"
    if "sort_p p = JObj so \<and> map_of so ''order'' = Some (JStr ord)" for so ord
    using that getListQuery_builds [of p so ord st] by blast
  ultimately show ?thesis by blast
qed

theorem getListQuery_pagination_witness:
  "1 \<le> page (pagination (sample_list\<lparr>pagination := \<lparr>page = 3, perPage = 25\<rparr>\<rparr>)) \<and>
   page (pagination (sample_list\<lparr>pagination := \<lparr>page = 3, perPage = 25\<rparr>\<rparr>))
     \<le> 9007199254740992 \<and>
   1 \<le> perPage (pagination (sample_list\<lparr>pagination := \<lparr>page = 3, perPage = 25\<rparr>\<rparr>)) \<and>
   perPage (pagination (sample_list\<lparr>pagination := \<lparr>page = 3, perPage = 25\<rparr>\<rparr>))
     \<le> 9007199254740992 \<and>
   (page (pagination (sample_list\<lparr>pagination := \<lparr>page = 3, perPage = 25\<rparr>\<rparr>)) - 1)
     * perPage (pagination (sample_list\<lparr>pagination := \<lparr>page = 3, perPage = 25\<rparr>\<rparr>))
     \<le> 9007199254740992 \<and>
   getListQuery sample_store (sample_list\<lparr>pagination := \<lparr>page = 3, perPage = 25\<rparr>\<rparr>)
     = Inr [(''limit'', JNum 25), (''offset'', JNum 50),
            (''sort'', JObj [(''somefield'', JStr ''asc'')]),
            (''filter'', JObj [(''id'', JStr ''equals:1'')])] \<and>
   get_prop (JObj [(''limit'', JNum 25), (''offset'', JNum 50),
                   (''sort'', JObj [(''somefield'', JStr ''asc'')]),
                   (''filter'', JObj [(''id'', JStr ''equals:1'')])]) ''offset''
     = Inr (JNum ((3 - 1) * 25)) \<and>
   get_prop (JObj [(''limit'', JNum 25), (''offset'', JNum 50),
                   (''sort'', JObj [(''somefield'', JStr ''asc'')]),
                   (''filter'', JObj [(''id'', JStr ''equals:1'')])]) ''limit''
     = Inr (JNum 25)"
proof -
  let ?p = "sample_list\<lparr>pagination := \<lparr>page = 3, perPage = 25\<rparr>\<rparr>"
  have h1: "1 \<le> page (pagination ?p)" by simp
  have h2: "page (pagination ?p) \<le> 9007199254740992" by simp
  have h3: "1 \<le> perPage (pagination ?p)" by simp
  have h4: "perPage (pagination ?p) \<le> 9007199254740992" by simp
  have h5: "(page (pagination ?p) - 1) * perPage (pagination ?p) \<le> 9007199254740992" by simp
  have q: "getListQuery sample_store ?p
              = Inr [(''limit'', JNum 25), (''offset'', JNum 50),
                     (''sort'', JObj [(''somefield'', JStr ''asc'')]),
                     (''filter'', JObj [(''id'', JStr ''equals:1'')])]"
    by code_simp
  from getListQuery_pagination [OF h1 h2 h3 h4 h5, of sample_store] q
  have "get_prop (JObj [(''limit'', JNum 25), (''offset'', JNum 50),
                        (''sort'', JObj [(''somefield'', JStr ''asc'')]),
                        (''filter'', JObj [(''id'', JStr ''equals:1'')])]) ''offset''
          = Inr (JNum ((3 - 1) * 25))"
    by simp
  with h1 h2 h3 h4 h5 q show ?thesis by simp
qed

text \<open>
  Without the bound the claim fails: \<open>94906267 * 94906267\<close> is \<open>9007199515875289\<close>, which is
  no double, and the offset of the query is the double next to it.
\<close>

theorem getListQuery_pagination_counterexample:
  "getListQuery sample_store
     (sample_list\<lparr>pagination := \<lparr>page = 94906268, perPage = 94906267\<rparr>\<rparr>)
     = Inr [(''limit'', JNum 94906267), (''offset'', JNum 9007199515875288),
            (''sort'', JObj [(''somefield'', JStr ''asc'')]),
            (''filter'', JObj [(''id'', JStr ''equals:1'')])] \<and>
   (94906268 - 1) * 94906267 = (9007199515875289 :: int)"
  by code_simp

section \<open>Sorting\<close>

text \<open>
  Claim C4. When a sort field is given the query's sort is \<open>{field: lowercased order}\<close>
  (lemma \<open>getListQuery_sort_given\<close>); when no sort is given the query is to omit the sort
  key. The builder does not: its test \<open>Object.keys(sort)\<close> is true of every array, so the
  sort entry is always built, and for the empty sort object and for an absent sort the
  build raises a type error instead of returning a query without a sort key.
\<close>

theorem getListQuery_no_sort_raises:
  "getListQuery st (p\<lparr>sort_p := JObj []\<rparr>) = Inl TypeError \<and>
   getListQuery st (p\<lparr>sort_p := JUndefined\<rparr>) = Inl TypeError"
  by (simp add: getListQuery_def sort_object_def)

section \<open>Filters\<close>

text \<open>
  Claim C7, as amended. For every filter mapping passed to the list-query builder and every
  query that is built, every entry other than the reserved key \<open>q\<close> whose name \<open>meta.filter\<close>
  does not supply as well, whatever its value (falsy values and the empty string included),
  appears in the built query's filter field with its value wrapped as \<open>equals:<value>\<close>; the
  entries of the filter other than \<open>q\<close> appear there in the property order of the filter
  object, which is the insertion order but for array-index names, which come first; and
  when \<open>meta.filter\<close> has no name \<open>q\<close>, the reserved key \<open>q\<close> is not in the wrapped filter
  field. A query is built whenever the sort is an object whose order is a string.
\<close>

theorem getListQuery_filter_wrapped:
  "(\<forall>query. getListQuery st p = Inr query \<longrightarrow>
      (\<exists>wrapped.
         get_prop (JObj query) ''filter'' = Inr (JObj wrapped) \<and>
         (\<forall>k v. (k, v) \<in> set (object_at st (filter_p p)) \<and> k \<noteq> ''q'' \<and>
                k \<notin> set (map fst (meta_filter st p))
                \<longrightarrow> map_of wrapped k = Some (JStr (''equals:'' @ to_string v))) \<and>
         filter (\<lambda>k. k \<in> set (filter (\<lambda>k. k \<noteq> ''q'') (map fst (object_at st (filter_p p)))))
           (map fst wrapped)
           = filter (\<lambda>k. k \<noteq> ''q'') (map fst (object_at st (filter_p p))) \<and>
         (''q'' \<notin> set (map fst (meta_filter st p)) \<longrightarrow> ''q'' \<notin> set (map fst wrapped)))) \<and>
   (\<forall>so ord. sort_p p = JObj so \<and> map_of so ''order'' = Some (JStr ord) \<longrightarrow>
      (\<exists>query. getListQuery st p = Inr query))"
proof -
  let ?O = "object_at st (filter_p p)"
  let ?F = "filter (\<lambda>kv. fst kv \<noteq> ''q'') ?O"
  let ?M = "meta_filter st p"
  let ?A = "assign ?F ?M"
  have cF: "canonical ?F" by (rule canonical_filter [OF canonical_object_at])
  then have dF: "distinct (map fst ?F)" by (simp add: canonical_def)
  have cA: "canonical ?A" using cF by (rule canonical_assign)
  then have dA: "distinct (map fst ?A)" by (simp add: canonical_def)
  have keysF: "map fst ?F = filter (\<lambda>k. k \<noteq> ''q'') (map fst ?O)"
    by (simp add: filter_map comp_def)
  have keysW: "map fst (map wrap ?A) = map fst ?A"
    by (simp add: wrap_def comp_def)
  have vals: "map_of (map wrap ?A) k = Some (JStr (''equals:'' @ to_string v))"
    if "(k, v) \<in> set ?O \<and> k \<noteq> ''q'' \<and> k \<notin> set (map fst ?M)" for k v
  proof -
    from that have "(k, v) \<in> set ?F" by simp
    with dF have "map_of ?F k = Some v" by (simp add: map_of_eq_Some_iff del: map_of_eq_Some_iff)
    moreover from that have "k \<notin> set (map fst ?M)" by blast
    ultimately have "map_of ?A k = Some v"
      by (simp add: map_of_assign_other)
    then have "(k, v) \<in> set ?A" by (rule map_of_SomeD)
    then have "wrap (k, v) \<in> set (map wrap ?A)" by simp
    moreover have "distinct (map fst (map wrap ?A))" by (simp only: keysW dA)
    ultimately have "map_of (map wrap ?A) (fst (wrap (k, v))) = Some (snd (wrap (k, v)))"
      by (simp only: map_of_is_SomeI prod.collapse)
    then show ?thesis by (simp add: wrap_def)
  qed
  have "filter (\<lambda>k. k \<in> set (map fst ?F)) (map fst ?A)
          = filter (\<lambda>k. k \<in> set (map fst ?F)) (map fst ?F)"
    by (rule order_assign) simp
  also have "\<dots> = map fst ?F" by (rule filter_True) simp
  finally have order: "filter (\<lambda>k. k \<in> set (filter (\<lambda>k. k \<noteq> ''q'') (map fst ?O)))
                         (map fst (map wrap ?A))
                       = filter (\<lambda>k. k \<noteq> ''q'') (map fst ?O)"
    by (simp only: keysW keysF)
  have noq: "''q'' \<notin> set (map fst (map wrap ?A))" if "''q'' \<notin> set (map fst ?M)"
  proof -
    have "''q'' \<notin> set (map fst ?F)" by (simp only: keysF) simp
    with that names_assign [of ?F ?M] have "''q'' \<notin> set (map fst ?A)" by blast
    then show ?thesis unfolding keysW .
  qed
  have built: "\<exists>wrapped.
         get_prop (JObj query) ''filter'' = Inr (JObj wrapped) \<and>
         (\<forall>k v. (k, v) \<in> set ?O \<and> k \<noteq> ''q'' \<and> k \<notin> set (map fst ?M)
                \<longrightarrow> map_of wrapped k = Some (JStr (''equals:'' @ to_string v))) \<and>
         filter (\<lambda>k. k \<in> set (filter (\<lambda>k. k \<noteq> ''q'') (map fst ?O))) (map fst wrapped)
           = filter (\<lambda>k. k \<noteq> ''q'') (map fst ?O) \<and>
         (''q'' \<notin> set (map fst ?M) \<longrightarrow> ''q'' \<notin> set (map fst wrapped))"
    if "getListQuery st p = Inr query" for query
  proof -
    have "get_prop (JObj query) ''filter'' = Inr (JObj (map wrap ?A))"
      using getListQuery_shape [OF that] getQuery_cases [of "meta p"]
      by (auto split: option.splits)
    with vals order noq show ?thesis by blast
  qed
  have "\<exists>query. getListQuery st p = Inr query"
    if "sort_p p = JObj so \<and> map_of so ''order'' = Some (JStr ord)" for so ord
    using that getListQuery_builds [of p so ord st] by blast
  with built show ?thesis by blast
qed

text \<open>The falsy values \<open>''\<close>, \<open>0\<close> and \<open>false\<close> are wrapped, not dropped.\<close>

theorem getListQuery_filter_wrapped_witness:
  "getListQuery falsy_store meta_list
     = Inr [(''limit'', JNum 25), (''offset'', JNum 0),
            (''sort'', JObj [(''somefield'', JStr ''asc'')]), (''q'', JStr ''s''),
            (''filter'', JObj [(''a'', JStr ''equals:''), (''b'', JStr ''equals:0''),
                              (''c'', JStr ''equals:false'')])] \<and>
   map_of [(''a'', JStr ''equals:''), (''b'', JStr ''equals:0''), (''c'', JStr ''equals:false'')]
     ''b'' = Some (JStr (''equals:'' @ to_string (JNum 0)))"
proof -
  have h1: "getListQuery falsy_store meta_list
     = Inr [(''limit'', JNum 25), (''offset'', JNum 0),
            (''sort'', JObj [(''somefield'', JStr ''asc'')]), (''q'', JStr ''s''),
            (''filter'', JObj [(''a'', JStr ''equals:''), (''b'', JStr ''equals:0''),
                              (''c'', JStr ''equals:false'')])]"
    by code_simp
  have m: "(''b'', JNum 0) \<in> set (object_at falsy_store (filter_p meta_list))"
    by code_simp
  have n: "''b'' \<notin> set (map fst (meta_filter falsy_store meta_list))"
    by code_simp
  from getListQuery_filter_wrapped [of falsy_store meta_list] h1
  obtain wrapped where
    g: "get_prop (JObj [(''limit'', JNum 25), (''offset'', JNum 0),
            (''sort'', JObj [(''somefield'', JStr ''asc'')]), (''q'', JStr ''s''),
            (''filter'', JObj [(''a'', JStr ''equals:''), (''b'', JStr ''equals:0''),
                              (''c'', JStr ''equals:false'')])]) ''filter''
          = Inr (JObj wrapped)"
    and v: "\<forall>k v. (k, v) \<in> set (object_at falsy_store (filter_p meta_list)) \<and> k \<noteq> ''q'' \<and>
                  k \<notin> set (map fst (meta_filter falsy_store meta_list))
                  \<longrightarrow> map_of wrapped k = Some (JStr (''equals:'' @ to_string v))"
    by blast
  from g have w: "wrapped = [(''a'', JStr ''equals:''), (''b'', JStr ''equals:0''),
                              (''c'', JStr ''equals:false'')]"
    by simp
  from v m n have "map_of wrapped ''b'' = Some (JStr (''equals:'' @ to_string (JNum 0)))"
    by blast
  then have "map_of [(''a'', JStr ''equals:''), (''b'', JStr ''equals:0''),
                     (''c'', JStr ''equals:false'')] ''b''
               = Some (JStr (''equals:'' @ to_string (JNum 0)))"
    by (simp only: w)
  with h1 show ?thesis by simp
qed

text \<open>
  Without the amendment the claim fails: with the filter \<open>{a: 1, q: 's'}\<close> and the
  \<open>meta.filter\<close> \<open>{a: 2, q: 'x'}\<close> the entry \<open>a\<close> carries the value of \<open>meta.filter\<close>, and \<open>q\<close>
  is inside the wrapped filter field; and with the filter written \<open>{b: 1, '1': 2}\<close> the
  entry \<open>1\<close>, inserted last, comes first.
\<close>

theorem getListQuery_filter_counterexample:
  "getListQuery override_store meta_list
     = Inr [(''limit'', JNum 25), (''offset'', JNum 0),
            (''sort'', JObj [(''somefield'', JStr ''asc'')]), (''q'', JStr ''s''),
            (''filter'', JObj [(''a'', JStr ''equals:2''), (''q'', JStr ''equals:x'')])] \<and>
   (''a'', JNum 1) \<in> set (object_at override_store (filter_p meta_list)) \<and>
   (''a'', JStr ''equals:1'') \<notin> set [(''a'', JStr ''equals:2''), (''q'', JStr ''equals:x'')] \<and>
   ''q'' \<in> set (map fst [(''a'', JStr ''equals:2''), (''q'', JStr ''equals:x'')]) \<and>
   index_store (filter_p sample_list) = [(''b'', JNum 1), (''1'', JNum 2)] \<and>
   getListQuery index_store sample_list
     = Inr [(''limit'', JNum 25), (''offset'', JNum 0),
            (''sort'', JObj [(''somefield'', JStr ''asc'')]),
            (''filter'', JObj [(''1'', JStr ''equals:2''), (''b'', JStr ''equals:1'')])]"
  by code_simp

section \<open>Response interpretation\<close>















section \<open>Fetching by reference\<close>

lemma sample_query:
  "getListQuery sample_store sample_reference
     = Inr [(''limit'', JNum 25), (''offset'', JNum 0),
            (''sort'', JObj [(''somefield'', JStr ''asc'')]),
            (''filter'', JObj [(''id'', JStr ''equals:1'')])]"
  by code_simp

text \<open>
  What \<open>getManyReference\<close> does to the state once its query is built: the assignment to the
  filter object, and one request, whose query is the one built before the assignment.
\<close>

lemma getManyReference_effect:
  assumes "getListQuery (objects w) p = Inr q"
  shows "snd (getManyReference E w resource p)
         = after_call
             (w\<lparr>objects := (if target p \<noteq> []
                             then (objects w)
                                    (filter_p p :=
                                       set_prop (object_at (objects w) (filter_p p)) (target p)
                                         (JStr (''equals:'' @ to_string (id_r p))))
                             else objects w),
                sent := sent w @ [\<lparr>url_base = baseUrl E, url_path = ''/'' @ resource,
                                   url_search = Some q, options = None\<rparr>]\<rparr>) p"
  using assms
  by (auto simp: getManyReference_def call_fetch_def Let_def after_call_def
        split: sum.splits prod.splits)

text \<open>
  Claim C1. For every \<open>getManyReference\<close> call with a target field name and reference id,
  the query sent to the transport is to contain \<open>filter[target] = equals:id\<close> besides the
  caller's own filter entries. The operation builds the query before it assigns the entry to
  the filter object, and the query holds a copy of the entries, so the entry is not in the
  query that is sent: for the call of the test suite, with target \<open>sometarget\<close>, id 1 and
  filter \<open>{id: 1}\<close>, the filter of the request is \<open>{id: 'equals:1'}\<close> alone, whatever the
  transport.
\<close>

theorem getManyReference_query_lacks_target:
  "sent (snd (getManyReference E (fresh_world sample_store) ''resource'' sample_reference))
     = [\<lparr>url_base = baseUrl E, url_path = ''/resource'',
         url_search = Some [(''limit'', JNum 25), (''offset'', JNum 0),
                            (''sort'', JObj [(''somefield'', JStr ''asc'')]),
                            (''filter'', JObj [(''id'', JStr ''equals:1'')])],
         options = None\<rparr>]"
proof -
  have "getListQuery (objects (fresh_world sample_store)) sample_reference
     = Inr [(''limit'', JNum 25), (''offset'', JNum 0),
            (''sort'', JObj [(''somefield'', JStr ''asc'')]),
            (''filter'', JObj [(''id'', JStr ''equals:1'')])]"
    by (simp add: fresh_world_def sample_query)
  from getManyReference_effect [OF this] show ?thesis
    by (simp add: fresh_world_def after_call_def)
qed




section \<open>Deleting\<close>

text \<open>
  Claim C3. For every single-entity delete whose response status is \<open>\<ge> 400\<close>, the error
  raised is to be the classified response error that the other operations and delete-many
  raise. On status 404 \<open>delete\<close> raises a plain \<open>Error\<close> whose message is the status alone,
  where \<open>deleteMany\<close> raises an \<open>InvalidResponseError\<close>; neither reads the body.
\<close>

theorem delete_raises_plain_error:
  "fst (delete (respond 404 b) w ''resource'' \<lparr>id_p = JNum 1\<rparr>)
     = Inl (Thrown ''Error'' [(''message'', JStr ''404'')]) \<and>
   fst (deleteMany (respond 404 b) w ''resource'' \<lparr>ids = JArr [JNum 1]\<rparr>)
     = Inl (Thrown ''InvalidResponseError''
              [(''message'', JStr ''Invalid response: 404''), (''errors'', JUndefined)])"
  by (simp add: delete_def deleteMany_def call_fetch_def respond_def Error_def
        InvalidResponseError_def number_strings)

text \<open>
  Claim C8. For every delete-many call whose response status is below 400, the result is
  \<open>{data: ids}\<close> with \<open>ids\<close> exactly as the caller supplied them, whatever the body of the
  response, which is not read. The response is the transport's answer to the one request
  that the operation sends.
\<close>

theorem deleteMany_echoes_ids:
  assumes "fetch E \<lparr>url_base = baseUrl E, url_path = ''/'' @ resource,
                    url_search = Some [(''id'', ids params)],
                    options = Some \<lparr>method_o = ''DELETE'', body = None, headers = []\<rparr>\<rparr>
             = Inr res"
    and "status res < 400"
  shows "fst (deleteMany E w resource params) = Inr (JObj [(''data'', ids params)]) \<and>
         sent (snd (deleteMany E w resource params))
           = sent w @ [\<lparr>url_base = baseUrl E, url_path = ''/'' @ resource,
                         url_search = Some [(''id'', ids params)],
                         options = Some \<lparr>method_o = ''DELETE'', body = None,
                                         headers = []\<rparr>\<rparr>]"
  using assms by (simp add: deleteMany_def call_fetch_def Let_def)

text \<open>Status 204 with a body that would not even decode.\<close>

theorem deleteMany_echoes_ids_witness:
  "fetch (respond 204 (Inl (Rejected ''empty body'')))
       \<lparr>url_base = baseUrl (respond 204 (Inl (Rejected ''empty body''))),
        url_path = ''/'' @ ''resource'',
        url_search = Some [(''id'', ids \<lparr>ids = JArr [JNum 1, JNum 2]\<rparr>)],
        options = Some \<lparr>method_o = ''DELETE'', body = None, headers = []\<rparr>\<rparr>
     = Inr \<lparr>status = 204, json = Inl (Rejected ''empty body'')\<rparr> \<and>
   status \<lparr>status = 204, json = Inl (Rejected ''empty body'')\<rparr> < 400 \<and>
   fst (deleteMany (respond 204 (Inl (Rejected ''empty body''))) (fresh_world sample_store)
          ''resource'' \<lparr>ids = JArr [JNum 1, JNum 2]\<rparr>)
     = Inr (JObj [(''data'', JArr [JNum 1, JNum 2])]) \<and>
   sent (snd (deleteMany (respond 204 (Inl (Rejected ''empty body''))) (fresh_world sample_store)
                ''resource'' \<lparr>ids = JArr [JNum 1, JNum 2]\<rparr>))
     = [\<lparr>url_base = ''http://api.com'', url_path = ''/resource'',
         url_search = Some [(''id'', JArr [JNum 1, JNum 2])],
         options = Some \<lparr>method_o = ''DELETE'', body = None, headers = []\<rparr>\<rparr>]"
proof -
  let ?E = "respond 204 (Inl (Rejected ''empty body''))"
  let ?res = "\<lparr>status = 204, json = Inl (Rejected ''empty body'')\<rparr>"
  have h1: "fetch ?E \<lparr>url_base = baseUrl ?E, url_path = ''/'' @ ''resource'',
                       url_search = Some [(''id'', ids \<lparr>ids = JArr [JNum 1, JNum 2]\<rparr>)],
                       options = Some \<lparr>method_o = ''DELETE'', body = None, headers = []\<rparr>\<rparr>
              = Inr ?res"
    by (simp add: respond_def)
  have h2: "status ?res < 400" by simp
  show ?thesis
    using h1 h2 deleteMany_echoes_ids [OF h1 h2, of "fresh_world sample_store"]
    by (simp add: respond_def fresh_world_def)
qed

section \<open>Recognising the error\<close>

text \<open>
  Claim C9. Every classified response error raised by the operations is to carry a marker
  field by which a structural check recognises it. The error module has both, the marker in
  \<open>DataProviderError\<close> and the check \<open>isDataProviderError\<close>, but the operations raise
  \<open>InvalidResponseError\<close>, whose fields are \<open>message\<close> and \<open>errors\<close> only: the error that
  \<open>create\<close> raises on a 400 response with validation errors is not recognised by the check,
  where a \<open>DataProviderError\<close> of the same status and errors is.
\<close>

theorem raised_error_lacks_marker:
  "fst (create (respond 400 (Inr (JObj [(''errors'', validation_errors)]))) w ''resource''
          \<lparr>data_c = JObj [(''foo'', JStr ''bar'')]\<rparr>)
     = Inl (Thrown ''InvalidResponseError''
              [(''message'', JStr ''Invalid response: 400''), (''errors'', validation_errors)]) \<and>
   \<not> isDataProviderError
        (JObj [(''message'', JStr ''Invalid response: 400''), (''errors'', validation_errors)]) \<and>
   DataProviderError 400 validation_errors
     = Thrown ''DataProviderError''
         [(''message'', JStr ''Invalid response: 400''), (''errors'', validation_errors),
          (''_dataprovidererror'', JBool True)] \<and>
   isDataProviderError
     (JObj [(''message'', JStr ''Invalid response: 400''), (''errors'', validation_errors),
            (''_dataprovidererror'', JBool True)])"
  by (simp add: create_def call_fetch_def respond_def getJsonResponse_def
        InvalidResponseError_def DataProviderError_def isDataProviderError_def number_strings)

section \<open>Identifier lists\<close>

lemma reduce_items_raw:
  "list_all (\<lambda>item. is_identifier item \<or> exposes_id item) items \<Longrightarrow>
   reduce_items items = Inr (map raw_identifier items)"
proof (induction items)
  case Nil
  then show ?case by simp
next
  case (Cons item items)
  from Cons.prems have "is_identifier item \<or> exposes_id item" by simp
  then have "(case isIdObject item of
                Inl e \<Rightarrow> Inl e
              | Inr b \<Rightarrow> (if b then get_prop item ''id'' else Inr item))
             = Inr (raw_identifier item)"
    by (cases item) (auto simp: isIdObject_def split: option.splits dest: map_of_SomeD
          simp: map_of_eq_None_iff)
  moreover from Cons have "reduce_items items = Inr (map raw_identifier items)" by simp
  ultimately show ?case by (auto split: sum.splits)
qed

lemma raw_identifier_bare: "list_all is_identifier items \<Longrightarrow> map raw_identifier items = items"
proof (induction items)
  case Nil
  then show ?case by simp
next
  case (Cons item items)
  then show ?case by (cases item) auto
qed

text \<open>
  Claim C5, as amended. For every identifier list passed to fetch-many, whether its elements
  are bare identifiers or objects exposing an identifier field, the id list placed in the
  query is the list of raw identifiers in the same order, each object element reduced to its
  identifier field. Update-many and delete-many place the identifier list in the query as
  the caller supplied it, which is the list of raw identifiers when the elements are bare
  identifiers.
\<close>

theorem id_list_in_query:
  assumes "ids pm = JArr items"
    and "list_all (\<lambda>item. is_identifier item \<or> exposes_id item) items"
  shows "sent (snd (getMany E w resource pm))
           = sent w @ [\<lparr>url_base = baseUrl E, url_path = ''/'' @ resource,
                         url_search = Some [(''id'', JArr (map raw_identifier items))],
                         options = None\<rparr>] \<and>
         sent (snd (updateMany E w resource pu))
           = sent w @ [\<lparr>url_base = baseUrl E, url_path = ''/'' @ resource,
                         url_search = Some [(''id'', ids pu)],
                         options = Some \<lparr>method_o = ''PUT'', body = Some (data_m pu),
                                         headers = json_headers\<rparr>\<rparr>] \<and>
         sent (snd (deleteMany E w resource pd))
           = sent w @ [\<lparr>url_base = baseUrl E, url_path = ''/'' @ resource,
                         url_search = Some [(''id'', ids pd)],
                         options = Some \<lparr>method_o = ''DELETE'', body = None,
                                         headers = []\<rparr>\<rparr>] \<and>
         (list_all is_identifier items \<longrightarrow> map raw_identifier items = items)"
proof -
  have "id_list (ids pm) = Inr (map raw_identifier items)"
    using assms by (simp add: reduce_items_raw)
  then have "sent (snd (getMany E w resource pm))
           = sent w @ [\<lparr>url_base = baseUrl E, url_path = ''/'' @ resource,
                         url_search = Some [(''id'', JArr (map raw_identifier items))],
                         options = None\<rparr>]"
    by (auto simp: getMany_def call_fetch_def Let_def split: sum.splits prod.splits)
  moreover have "sent (snd (updateMany E w resource pu))
           = sent w @ [\<lparr>url_base = baseUrl E, url_path = ''/'' @ resource,
                         url_search = Some [(''id'', ids pu)],
                         options = Some \<lparr>method_o = ''PUT'', body = Some (data_m pu),
                                         headers = json_headers\<rparr>\<rparr>]"
    by (auto simp: updateMany_def call_fetch_def Let_def split: sum.splits prod.splits)
  moreover have "sent (snd (deleteMany E w resource pd))
           = sent w @ [\<lparr>url_base = baseUrl E, url_path = ''/'' @ resource,
                         url_search = Some [(''id'', ids pd)],
                         options = Some \<lparr>method_o = ''DELETE'', body = None,
                                         headers = []\<rparr>\<rparr>]"
    by (auto simp: deleteMany_def call_fetch_def Let_def split: sum.splits prod.splits)
  ultimately show ?thesis using raw_identifier_bare by blast
qed

theorem id_list_in_query_witness:
  "ids \<lparr>ids = JArr [JObj [(''id'', JNum 1)], JNum 2, JStr ''c'']\<rparr>
     = JArr [JObj [(''id'', JNum 1)], JNum 2, JStr ''c''] \<and>
   list_all (\<lambda>item. is_identifier item \<or> exposes_id item)
     [JObj [(''id'', JNum 1)], JNum 2, JStr ''c''] \<and>
   sent (snd (getMany (respond 200 (Inr items_body)) (fresh_world sample_store) ''resource''
                \<lparr>ids = JArr [JObj [(''id'', JNum 1)], JNum 2, JStr ''c'']\<rparr>))
     = [\<lparr>url_base = ''http://api.com'', url_path = ''/resource'',
         url_search = Some [(''id'', JArr [JNum 1, JNum 2, JStr ''c''])], options = None\<rparr>]"
proof -
  let ?items = "[JObj [(''id'', JNum 1)], JNum 2, JStr ''c'']"
  have h1: "ids \<lparr>ids = JArr ?items\<rparr> = JArr ?items" by simp
  have h2: "list_all (\<lambda>item. is_identifier item \<or> exposes_id item) ?items" by simp
  show ?thesis
    using h1 h2
      id_list_in_query [OF h1 h2, of "respond 200 (Inr items_body)" "fresh_world sample_store"
        "''resource''"]
    by (simp add: respond_def fresh_world_def)
qed

text \<open>
  Without the amendment the claim fails: update-many and delete-many place an object element
  in the query as it is.
\<close>

theorem updateMany_ids_counterexample:
  "sent (snd (updateMany (respond 200 (Inr items_body)) (fresh_world sample_store) ''resource''
                \<lparr>ids = JArr [JObj [(''id'', JNum 1)], JNum 2],
                 data_m = JObj [(''foo'', JStr ''bar'')]\<rparr>))
     = [\<lparr>url_base = ''http://api.com'', url_path = ''/resource'',
         url_search = Some [(''id'', JArr [JObj [(''id'', JNum 1)], JNum 2])],
         options = Some \<lparr>method_o = ''PUT'', body = Some (JObj [(''foo'', JStr ''bar'')]),
                         headers = [(''Content-Type'', ''application/json'')]\<rparr>\<rparr>] \<and>
   sent (snd (deleteMany (respond 204 (Inr JNull)) (fresh_world sample_store) ''resource''
                \<lparr>ids = JArr [JObj [(''id'', JNum 1)], JNum 2]\<rparr>))
     = [\<lparr>url_base = ''http://api.com'', url_path = ''/resource'',
         url_search = Some [(''id'', JArr [JObj [(''id'', JNum 1)], JNum 2])],
         options = Some \<lparr>method_o = ''DELETE'', body = None, headers = []\<rparr>\<rparr>]"
  by (simp add: updateMany_def deleteMany_def call_fetch_def respond_def fresh_world_def
        json_headers_def items_body_def getJsonResponse_def items_only_def)

end
